theory Spec2Isabelle
  imports Complex_Main "HOL-Library.Char_ord" "HOL-Library.List_Lexorder"
    "HOL-Library.Product_Lexorder" "HOL-Library.Multiset"
begin

section \<open>Transaction categorization (transaction\_categorizer.py, config.py)\<close>

text \<open>
  Descriptions, keywords, transaction types and category names are Python strings; they are
  modelled as \<^typ>\<open>string\<close>. Amounts are the numeric values of the \<open>amount\<close> column and are
  modelled as exact real numbers. \<open>str.lower\<close> is modelled on the ASCII letters; every other
  character is left as it is.
\<close>

definition lower_char :: "char \<Rightarrow> char" where
  "lower_char c =
     (case map_of (zip ''ABCDEFGHIJKLMNOPQRSTUVWXYZ'' ''abcdefghijklmnopqrstuvwxyz'') c of
        Some l \<Rightarrow> l
      | None \<Rightarrow> c)"

definition lower :: "string \<Rightarrow> string" where
  "lower s = map lower_char s"

text \<open>\<open>starts_with k d\<close>: the text \<open>d\<close> begins with \<open>k\<close>.\<close>

fun starts_with :: "string \<Rightarrow> string \<Rightarrow> bool" where
  "starts_with [] d = True"
| "starts_with (k # ks) [] = False"
| "starts_with (k # ks) (c # cs) = (k = c \<and> starts_with ks cs)"

text \<open>Python's \<open>keyword in description\<close>: \<open>keyword\<close> occurs somewhere in \<open>description\<close>.\<close>

fun contains :: "string \<Rightarrow> string \<Rightarrow> bool" where
  "contains k [] = (k = [])"
| "contains k (c # cs) = (starts_with k (c # cs) \<or> contains k cs)"

text \<open>The table \<open>CATEGORY_KEYWORDS\<close> of config.py, in its declaration order.\<close>

definition CATEGORY_KEYWORDS :: "(string \<times> string list) list" where
  "CATEGORY_KEYWORDS =
   [(''Food & Dining'',
       [''food'', ''restaurant'', ''swiggy'', ''zomato'', ''dominos'', ''mcdonalds'',
        ''starbucks'', ''grocery'', ''supermarket'', ''cafe'', ''dining'', ''meal'',
        ''pizza'', ''burger'', ''coffee'', ''tea'', ''snack'', ''lunch'', ''dinner'']),
    (''Transportation'',
       [''uber'', ''ola'', ''taxi'', ''cab'', ''petrol'', ''diesel'', ''fuel'', ''gas'',
        ''bus'', ''train'', ''metro'', ''parking'', ''toll'', ''transport'', ''ride'']),
    (''Shopping'',
       [''amazon'', ''flipkart'', ''myntra'', ''shopping'', ''mall'', ''store'', ''shop'',
        ''clothes'', ''fashion'', ''electronics'', ''book'', ''purchase'', ''order'']),
    (''Bills & Utilities'',
       [''electricity'', ''water'', ''internet'', ''phone'', ''bill'', ''utility'',
        ''gas'', ''rent'', ''insurance'', ''credit card'', ''premium'', ''subscription'']),
    (''Entertainment'',
       [''netflix'', ''spotify'', ''movie'', ''cinema'', ''game'', ''gaming'', ''entertainment'',
        ''concert'', ''theater'', ''streaming'', ''music'', ''video'', ''show'']),
    (''Healthcare'',
       [''hospital'', ''doctor'', ''medicine'', ''pharmacy'', ''health'', ''medical'',
        ''clinic'', ''dental'', ''eye'', ''prescription'', ''treatment'']),
    (''Education'',
       [''school'', ''college'', ''university'', ''course'', ''book'', ''education'',
        ''tuition'', ''fee'', ''student'', ''learning'', ''training'']),
    (''Travel'',
       [''hotel'', ''flight'', ''travel'', ''vacation'', ''trip'', ''booking'',
        ''airline'', ''resort'', ''tourism'', ''journey'']),
    (''Investments'',
       [''investment'', ''mutual fund'', ''stock'', ''savings'', ''sip'', ''equity'',
        ''portfolio'', ''fund'', ''trading'', ''brokerage'']),
    (''Income'',
       [''salary'', ''bonus'', ''income'', ''credit'', ''deposit'', ''refund'',
        ''cashback'', ''interest'', ''dividend'', ''freelance'', ''payment''])]"

text \<open>
  The inner loop \<open>for keyword in keywords: if keyword in description_lower: return category\<close>;
  \<open>None\<close> when the loop ends without returning.
\<close>

fun scan_keywords :: "string \<Rightarrow> string list \<Rightarrow> string \<Rightarrow> string option" where
  "scan_keywords category [] d = None"
| "scan_keywords category (keyword # keywords) d =
     (if contains keyword d then Some category else scan_keywords category keywords d)"

text \<open>The outer loop \<open>for category, keywords in CATEGORY_KEYWORDS.items()\<close>.\<close>

fun scan_categories :: "(string \<times> string list) list \<Rightarrow> string \<Rightarrow> string option" where
  "scan_categories [] d = None"
| "scan_categories ((category, keywords) # rest) d =
     (case scan_keywords category keywords d of
        Some c \<Rightarrow> Some c
      | None \<Rightarrow> scan_categories rest d)"

definition categorize_transaction :: "string \<Rightarrow> real \<Rightarrow> string \<Rightarrow> string" where
  "categorize_transaction description amount transaction_type =
     (let description_lower = lower description in
      case scan_categories CATEGORY_KEYWORDS description_lower of
        Some category \<Rightarrow> category
      | None \<Rightarrow>
          if transaction_type = ''Credit'' then ''Income''
          else if amount > 10000 then ''Shopping''
          else if amount > 1000 then ''Bills & Utilities''
          else ''Other'')"

text \<open>
  The (category, keyword) pairs of a table in the order the two loops visit them:
  categories in table order, keywords in declaration order within each category.
\<close>

definition table_pairs :: "(string \<times> string list) list \<Rightarrow> (string \<times> string) list" where
  "table_pairs tbl = concat (map (\<lambda>(c, ks). map (Pair c) ks) tbl)"

definition keyword_pairs :: "(string \<times> string) list" where
  "keyword_pairs = table_pairs CATEGORY_KEYWORDS"


section \<open>Transaction analysis (user\_profile.py)\<close>

subsection \<open>The transaction table\<close>

text \<open>
  A calendar date is (year, month, day); the key of \<open>dt.to_period('M')\<close> is (year, month).
  Both are ordered lexicographically, which is the chronological order. The time of day of a
  pandas timestamp is left out: no analysis below looks at it.
\<close>

type_synonym date = "nat \<times> nat \<times> nat"
type_synonym period = "nat \<times> nat"

definition to_period_M :: "date \<Rightarrow> period" where
  "to_period_M d = (fst d, fst (snd d))"

text \<open>
  A cell of the \<open>date\<close> column as a caller passes it: text such as \<open>2024-01-05\<close> (as in
  test\_app.py), or a value that is already a timestamp (as after the cleaning in app.py).
\<close>

datatype date_cell = DateText string | Timestamp date

fun is_timestamp :: "date_cell \<Rightarrow> bool" where
  "is_timestamp (Timestamp d) = True"
| "is_timestamp (DateText s) = False"

text \<open>
  A row of the DataFrame, with the columns \<open>date\<close>, \<open>description\<close>, \<open>amount\<close>, \<open>type\<close> and
  \<open>category\<close>; the table is the list of its rows in index order. The type of the \<open>date\<close>
  column is a parameter: \<^typ>\<open>date_cell\<close> for the table as passed in, \<^typ>\<open>date\<close> once the
  column has been converted.
\<close>

record 'd transaction =
  date :: 'd
  description :: string
  amount :: real
  type :: string
  category :: string

definition set_date :: "'a transaction \<Rightarrow> 'b \<Rightarrow> 'b transaction" where
  "set_date r d =
     \<lparr>date = d, description = description r, amount = amount r, type = type r,
      category = category r\<rparr>"

datatype error = DateParseError

subsection \<open>\<open>pd.to_datetime\<close>\<close>

text \<open>
  \<open>pd.to_datetime\<close> is a function of pandas. It leaves a timestamp as it is and parses text;
  text it cannot parse raises. The model parses the ISO form \<open>YYYY-MM-DD\<close>, the form of the
  repository's own test table, and takes any other text as unparseable.
\<close>

definition digit_val :: "char \<Rightarrow> nat option" where
  "digit_val c = map_of (zip ''0123456789'' [0, 1, 2, 3, 4, 5, 6, 7, 8, 9]) c"

fun digits_val :: "nat \<Rightarrow> string \<Rightarrow> nat option" where
  "digits_val acc [] = Some acc"
| "digits_val acc (c # cs) =
     (case digit_val c of None \<Rightarrow> None | Some v \<Rightarrow> digits_val (10 * acc + v) cs)"

definition is_leap :: "nat \<Rightarrow> bool" where
  "is_leap y = (y mod 4 = 0 \<and> (y mod 100 \<noteq> 0 \<or> y mod 400 = 0))"

definition days_in_month :: "nat \<Rightarrow> nat \<Rightarrow> nat" where
  "days_in_month y m =
     (if m = 2 then (if is_leap y then 29 else 28)
      else if m = 4 \<or> m = 6 \<or> m = 9 \<or> m = 11 then 30 else 31)"

definition parse_date :: "string \<Rightarrow> date option" where
  "parse_date s =
     (if length s = 10 \<and> s ! 4 = CHR ''-'' \<and> s ! 7 = CHR ''-'' then
        (case (digits_val 0 (take 4 s), digits_val 0 (take 2 (drop 5 s)),
               digits_val 0 (drop 8 s)) of
           (Some y, Some m, Some d) \<Rightarrow>
             if 1 \<le> m \<and> m \<le> 12 \<and> 1 \<le> d \<and> d \<le> days_in_month y m
             then Some (y, m, d) else None
         | _ \<Rightarrow> None)
      else None)"

fun to_datetime_cell :: "date_cell \<Rightarrow> error + date" where
  "to_datetime_cell (Timestamp d) = Inr d"
| "to_datetime_cell (DateText s) =
     (case parse_date s of None \<Rightarrow> Inl DateParseError | Some d \<Rightarrow> Inr d)"

text \<open>The conversion of a whole column: the first cell that fails raises.\<close>

fun to_datetime :: "date_cell list \<Rightarrow> error + date list" where
  "to_datetime [] = Inr []"
| "to_datetime (c # cs) =
     (case to_datetime_cell c of
        Inl e \<Rightarrow> Inl e
      | Inr d \<Rightarrow> (case to_datetime cs of Inl e \<Rightarrow> Inl e | Inr ds \<Rightarrow> Inr (d # ds)))"

subsection \<open>Series operations of pandas and numpy\<close>

text \<open>
  \<open>df.groupby(key)['amount'].sum()\<close>: one entry per key that occurs, the entries sorted by key,
  each holding the sum of the amounts of the rows with that key. A key that no row has gets no
  entry. \<open>add_to_group\<close> adds one row's amount to the sorted group list.
\<close>

fun add_to_group :: "'k::linorder \<Rightarrow> real \<Rightarrow> ('k \<times> real) list \<Rightarrow> ('k \<times> real) list" where
  "add_to_group k v [] = [(k, v)]"
| "add_to_group k v ((k', s) # gs) =
     (if k = k' then (k', s + v) # gs
      else if k < k' then (k, v) # (k', s) # gs
      else (k', s) # add_to_group k v gs)"

fun groupby_sum :: "('d transaction \<Rightarrow> 'k::linorder) \<Rightarrow> 'd transaction list \<Rightarrow> ('k \<times> real) list" where
  "groupby_sum key [] = []"
| "groupby_sum key (r # rows) = add_to_group (key r) (amount r) (groupby_sum key rows)"

text \<open>\<open>Series.mean()\<close>, used on non-empty series only.\<close>

definition series_mean :: "real list \<Rightarrow> real" where
  "series_mean xs = sum_list xs / real (length xs)"

text \<open>\<open>Series.idxmax()\<close> and \<open>Series.idxmin()\<close>: the key of the first largest (smallest) entry.\<close>

fun idxmax :: "('k \<times> real) list \<Rightarrow> 'k option" where
  "idxmax [] = None"
| "idxmax ((k, v) # gs) =
     (case idxmax gs of
        None \<Rightarrow> Some k
      | Some k' \<Rightarrow> if list_all (\<lambda>g. snd g \<le> v) gs then Some k else Some k')"

fun idxmin :: "('k \<times> real) list \<Rightarrow> 'k option" where
  "idxmin [] = None"
| "idxmin ((k, v) # gs) =
     (case idxmin gs of
        None \<Rightarrow> Some k
      | Some k' \<Rightarrow> if list_all (\<lambda>g. v \<le> snd g) gs then Some k else Some k')"

text \<open>The smallest and the largest element of a non-empty column.\<close>

fun series_min :: "'a::linorder list \<Rightarrow> 'a" where
  "series_min (x # xs) = fold min xs x"

fun series_max :: "'a::linorder list \<Rightarrow> 'a" where
  "series_max (x # xs) = fold max xs x"

subsection \<open>Library calls whose result is not fixed by their contract\<close>

text \<open>
  Some calls return values that the source does not determine:
  \<^item> \<open>Series.sort_values(ascending=False)\<close> is called with the default \<open>kind='quicksort'\<close>,
    which is not a stable sort: the result is a rearrangement in descending order of the
    values, and the order of entries of equal value is left to the library;
  \<^item> \<open>Series.value_counts()\<close> orders its counts by the same kind of sort;
  \<^item> \<open>np.polyfit(range(len(ys)), ys, 1)[0]\<close> is the slope of a least-squares fit computed in
    floating point by a linear-algebra routine; the value returned carries that routine's
    rounding.
  The analyzers take them as the fields of a parameter, so that what is proved of them holds
  for whatever the library returns.
\<close>

record library =
  sort_values_desc :: "(string \<times> real) list \<Rightarrow> (string \<times> real) list"
  sort_counts_desc :: "(string \<times> nat) list \<Rightarrow> (string \<times> nat) list"
  polyfit_slope :: "real list \<Rightarrow> real"

text \<open>
  \<open>Series.value_counts()\<close>: the distinct values with their numbers of occurrences, counted in
  the order of their first occurrence and then sorted, most frequent first.
\<close>

fun add_count :: "string \<Rightarrow> (string \<times> nat) list \<Rightarrow> (string \<times> nat) list" where
  "add_count x [] = [(x, 1)]"
| "add_count x ((y, n) # cs) = (if x = y then (y, n + 1) # cs else (y, n) # add_count x cs)"

definition value_counts :: "library \<Rightarrow> string list \<Rightarrow> (string \<times> nat) list" where
  "value_counts lib xs = sort_counts_desc lib (foldl (\<lambda>cs x. add_count x cs) [] xs)"


text \<open>
  One sort that meets the contract: sort ascending, then reverse. Entries of equal value come
  out in the reverse of the order they had.
\<close>

definition reversed_ascending_sort :: "(string \<times> real) list \<Rightarrow> (string \<times> real) list" where
  "reversed_ascending_sort gs = rev (sort_key snd gs)"

text \<open>
  The slope of the least-squares line through the points \<open>(0, ys[0]), ..., (n-1, ys[n-1])\<close> in
  exact arithmetic, by the closed form of the normal equations: what \<open>np.polyfit\<close> approximates.
\<close>

definition least_squares_slope :: "real list \<Rightarrow> real" where
  "least_squares_slope ys =
     (let n = real (length ys);
          xs = map real [0..<length ys];
          sx = sum_list xs;
          sy = sum_list ys;
          sxy = sum_list (map2 (*) xs ys);
          sxx = sum_list (map (\<lambda>x. x * x) xs)
      in (n * sxy - sx * sy) / (n * sxx - sx * sx))"

text \<open>
  The intercept of that line, and the squared error of a line \<open>a * i + b\<close> on the points.
\<close>

definition least_squares_intercept :: "real list \<Rightarrow> real" where
  "least_squares_intercept ys =
     (sum_list ys - least_squares_slope ys * sum_list (map real [0..<length ys])) /
     real (length ys)"

definition squared_error :: "real list \<Rightarrow> real \<Rightarrow> real \<Rightarrow> real" where
  "squared_error ys a b = (\<Sum>i<length ys. (ys ! i - (a * real i + b))\<^sup>2)"

text \<open>
  A library for the examples: both sorts reverse an ascending sort, and the fit is exact.
\<close>

definition sample_library :: library where
  "sample_library =
     \<lparr>sort_values_desc = reversed_ascending_sort,
      sort_counts_desc = (\<lambda>cs. rev (sort_key snd cs)),
      polyfit_slope = least_squares_slope\<rparr>"

subsection \<open>Python floats\<close>

text \<open>
  A Python float is an IEEE 754 double. The finite doubles are modelled as the real numbers
  they denote, and every arithmetic operation rounds its exact result to the nearest double,
  ties to the even significand. \<open>float64 x\<close> is that rounding: with \<open>2 ^ e \<le> |x| < 2 ^ (e + 1)\<close>
  the doubles around \<open>x\<close> are the multiples of \<open>2 ^ (e - 52)\<close>, and of \<open>2 ^ -1074\<close> in the
  subnormal range. A result beyond the largest double is not replaced by infinity: the score
  below only divides such a result by a positive double and compares it with finite doubles,
  and both give the answers that infinity gives.
\<close>

definition pow2 :: "int \<Rightarrow> real" where
  "pow2 k = (if 0 \<le> k then 2 ^ nat k else 1 / 2 ^ nat (- k))"

text \<open>
  The binary exponent \<open>e\<close> of \<open>a > 0\<close>, searched from a first guess; the fuel given below
  exceeds the exponent range of the doubles.
\<close>

fun binary_exponent :: "nat \<Rightarrow> real \<Rightarrow> int \<Rightarrow> int" where
  "binary_exponent 0 a e = e"
| "binary_exponent (Suc fuel) a e =
     (if a < pow2 e then binary_exponent fuel a (e - 1)
      else if pow2 (e + 1) \<le> a then binary_exponent fuel a (e + 1)
      else e)"

definition round_half_even :: "real \<Rightarrow> int" where
  "round_half_even x =
     (let f = \<lfloor>x\<rfloor>; d = x - of_int f
      in if d < 1 / 2 then f
         else if 1 / 2 < d then f + 1
         else if even f then f else f + 1)"

definition float64 :: "real \<Rightarrow> real" where
  "float64 x =
     (if x = 0 then 0
      else
        let a = \<bar>x\<bar>;
            e = binary_exponent 2200 a 0;
            q = max (e - 52) (- 1074);
            m = round_half_even (a / pow2 q)
        in sgn x * of_int m * pow2 q)"

text \<open>Python's \<open>x - y\<close>, \<open>x / y\<close> and \<open>x * y\<close> on floats.\<close>

definition fsub :: "real \<Rightarrow> real \<Rightarrow> real" where
  "fsub x y = float64 (x - y)"

definition fdiv :: "real \<Rightarrow> real \<Rightarrow> real" where
  "fdiv x y = float64 (x / y)"

definition fmul :: "real \<Rightarrow> real \<Rightarrow> real" where
  "fmul x y = float64 (x * y)"

subsection \<open>The profile and the analysis record\<close>

text \<open>
  The three analyzers return dictionaries that \<open>analyze_transactions\<close> merges into one; the
  record below keeps the three parts as fields. \<open>_analyze_spending_patterns\<close> sets no
  \<open>monthly_spending\<close> key on its early return, which is \<open>None\<close> here. The month keys are kept
  as periods; their rendering as text by \<open>strftime\<close> is left out.
\<close>

record income_data =
  total_income :: real
  monthly_income_avg :: real
  income_sources :: "(string \<times> nat) list"

record expense_data =
  total_expenses :: real
  monthly_expenses_avg :: real
  expense_breakdown :: "(string \<times> real) list"
  top_spending_categories :: "(string \<times> real) list"

record spending_patterns =
  spending_trend :: string
  highest_spending_month :: "period option"
  lowest_spending_month :: "period option"
  monthly_spending :: "(period \<times> real) list option"

text \<open>The analysis dictionary before (\<open>analysis_base\<close>) and after the score is stored in it.\<close>

record analysis_base =
  total_transactions :: nat
  date_range :: "date \<times> date"
  income :: income_data
  expenses :: expense_data
  patterns :: spending_patterns

record analysis = analysis_base +
  financial_health_score :: int

text \<open>
  The profile dictionary. \<open>financial_goals\<close> and \<open>monthly_savings_target\<close> are read with
  \<open>.get\<close> and a default, so either may be absent.
\<close>

record financial_goals =
  monthly_savings_target :: "real option"
  priority_categories :: "string list"
  cut_cost_areas :: "string list"

record user_profile =
  created_date :: string
  user_info :: "(string \<times> string) list"
  financial_goals :: "financial_goals option"
  transaction_analysis :: "analysis option"

subsection \<open>The analyzers\<close>

definition analyze_income :: "library \<Rightarrow> date transaction list \<Rightarrow> income_data" where
  "analyze_income lib df =
     (let income_df = filter (\<lambda>r. category r = ''Income'') df in
      if income_df = [] then
        \<lparr>total_income = 0, monthly_income_avg = 0, income_sources = []\<rparr>
      else
        let total_income = sum_list (map amount income_df);
            monthly_income = groupby_sum (\<lambda>r. to_period_M (date r)) income_df;
            avg_monthly_income = series_mean (map snd monthly_income);
            income_sources = take 5 (value_counts lib (map description income_df))
        in \<lparr>total_income = total_income, monthly_income_avg = avg_monthly_income,
            income_sources = income_sources\<rparr>)"

definition analyze_expenses :: "library \<Rightarrow> date transaction list \<Rightarrow> expense_data" where
  "analyze_expenses lib df =
     (let expense_df = filter (\<lambda>r. category r \<noteq> ''Income'') df in
      if expense_df = [] then
        \<lparr>total_expenses = 0, monthly_expenses_avg = 0, expense_breakdown = [],
         top_spending_categories = []\<rparr>
      else
        let total_expenses = sum_list (map amount expense_df);
            monthly_expenses = groupby_sum (\<lambda>r. to_period_M (date r)) expense_df;
            avg_monthly_expenses = series_mean (map snd monthly_expenses);
            category_breakdown = sort_values_desc lib (groupby_sum category expense_df);
            expense_breakdown = category_breakdown;
            top_categories = take 5 category_breakdown
        in \<lparr>total_expenses = total_expenses, monthly_expenses_avg = avg_monthly_expenses,
            expense_breakdown = expense_breakdown, top_spending_categories = top_categories\<rparr>)"

definition analyze_spending_patterns ::
    "library \<Rightarrow> date transaction list \<Rightarrow> spending_patterns" where
  "analyze_spending_patterns lib df =
     (let expense_df = filter (\<lambda>r. category r \<noteq> ''Income'') df in
      if expense_df = [] then
        \<lparr>spending_trend = ''stable'', highest_spending_month = None,
         lowest_spending_month = None, monthly_spending = None\<rparr>
      else
        let monthly_spending = groupby_sum (\<lambda>r. to_period_M (date r)) expense_df;
            spending_trend =
              (if length monthly_spending > 1 then
                 let spending_values = map snd monthly_spending;
                     trend_slope = polyfit_slope lib spending_values
                 in if trend_slope > 0 then ''increasing''
                    else if trend_slope < 0 then ''decreasing''
                    else ''stable''
               else ''insufficient_data'');
            highest_month = (if monthly_spending \<noteq> [] then idxmax monthly_spending else None);
            lowest_month = (if monthly_spending \<noteq> [] then idxmin monthly_spending else None)
        in \<lparr>spending_trend = spending_trend, highest_spending_month = highest_month,
            lowest_spending_month = lowest_month, monthly_spending = Some monthly_spending\<rparr>)"

text \<open>
  The score. The values read from the two dictionaries are Python floats, so each is taken as
  the double it denotes; the literals \<open>0.2\<close>, \<open>0.1\<close>, \<open>0.8\<close> and \<open>0.5\<close> are the doubles nearest
  to these decimals; the score itself is a Python integer.
\<close>

definition calculate_financial_health_score ::
    "'a analysis_base_scheme \<Rightarrow> user_profile \<Rightarrow> int" where
  "calculate_financial_health_score analysis user_profile =
     (let score = 50;
          monthly_income = float64 (monthly_income_avg (income analysis));
          monthly_expenses = float64 (monthly_expenses_avg (expenses analysis));
          savings_target =
            float64
              (case financial_goals user_profile of
                 None \<Rightarrow> 0
               | Some goals \<Rightarrow> (case monthly_savings_target goals of None \<Rightarrow> 0 | Some t \<Rightarrow> t));
          score =
            (if monthly_income > 0 then
               let savings_ratio = fdiv (fsub monthly_income monthly_expenses) monthly_income;
                   score =
                     (if savings_ratio > float64 0.2 then score + 20
                      else if savings_ratio > float64 0.1 then score + 10
                      else if savings_ratio > 0 then score + 5
                      else score - 20)
               in if savings_target > 0 then
                    let actual_savings = fsub monthly_income monthly_expenses
                    in if actual_savings \<ge> savings_target then score + 15
                       else if actual_savings \<ge> fmul savings_target (float64 0.8) then score + 10
                       else if actual_savings \<ge> fmul savings_target (float64 0.5) then score + 5
                       else score
                  else score
             else score);
          spending_trend = spending_trend (patterns analysis);
          score =
            (if spending_trend = ''decreasing'' then score + 10
             else if spending_trend = ''increasing'' then score - 10
             else score)
      in max 0 (min 100 score))"

text \<open>
  The body of \<open>analyze_transactions\<close> after the conversion of the dates: the basic counts,
  the three analyses and the score computed from them.
\<close>

definition build_analysis ::
    "library \<Rightarrow> date transaction list \<Rightarrow> user_profile \<Rightarrow> analysis" where
  "build_analysis lib df user_profile =
     (let analysis =
            \<lparr>total_transactions = length df,
             date_range = (series_min (map date df), series_max (map date df)),
             income = analyze_income lib df,
             expenses = analyze_expenses lib df,
             patterns = analyze_spending_patterns lib df\<rparr>
      in analysis_base.extend analysis
           \<lparr>financial_health_score =
              calculate_financial_health_score analysis user_profile\<rparr>)"

text \<open>
  \<open>analyze_transactions\<close> assigns to the \<open>date\<close> column of the table it is given and to the
  \<open>transaction_analysis\<close> key of the profile it is given; the model returns both objects as
  they are afterwards. An empty table returns at once. A date that cannot be converted raises
  before anything is assigned.
\<close>

definition analyze_transactions ::
    "library \<Rightarrow> date_cell transaction list \<Rightarrow> user_profile \<Rightarrow>
     error + (date_cell transaction list \<times> user_profile)" where
  "analyze_transactions lib transactions_df user_profile =
     (if transactions_df = [] then Inr (transactions_df, user_profile)
      else
        case to_datetime (map date transactions_df) of
          Inl e \<Rightarrow> Inl e
        | Inr dates \<Rightarrow>
            let df = map2 set_date transactions_df dates;
                analysis = build_analysis lib df user_profile
            in Inr (map (\<lambda>r. set_date r (Timestamp (date r))) df,
                    user_profile\<lparr>transaction_analysis := Some analysis\<rparr>))"

subsection \<open>The specification's formulation of the analyses\<close>

text \<open>
  The populated months of a table, in chronological order, and the sum of the amounts of the
  rows of one month.
\<close>

definition populated_months :: "date transaction list \<Rightarrow> period list" where
  "populated_months rows = sorted_list_of_set ((\<lambda>r. to_period_M (date r)) ` set rows)"

definition month_sum :: "date transaction list \<Rightarrow> period \<Rightarrow> real" where
  "month_sum rows m = sum_list (map amount (filter (\<lambda>r. to_period_M (date r) = m) rows))"


definition income_rows :: "date transaction list \<Rightarrow> date transaction list" where
  "income_rows df = filter (\<lambda>r. category r = ''Income'') df"

definition non_income_rows :: "date transaction list \<Rightarrow> date transaction list" where
  "non_income_rows df = filter (\<lambda>r. category r \<noteq> ''Income'') df"

text \<open>The arithmetic mean of the per-month sums over the populated months.\<close>

definition populated_months_mean :: "date transaction list \<Rightarrow> real" where
  "populated_months_mean rows =
     sum_list (map (month_sum rows) (populated_months rows)) /
     real (length (populated_months rows))"

text \<open>
  The health score as the specification lists it. The savings ratio and the savings are the
  floats the program computes; the brackets compare them with the float literals.
\<close>

definition savings_ratio :: "real \<Rightarrow> real \<Rightarrow> real" where
  "savings_ratio inc_avg exp_avg = fdiv (fsub inc_avg exp_avg) inc_avg"






subsection \<open>Example inputs\<close>

definition row :: "'d \<Rightarrow> string \<Rightarrow> real \<Rightarrow> string \<Rightarrow> string \<Rightarrow> 'd transaction" where
  "row d de a t c = \<lparr>date = d, description = de, amount = a, type = t, category = c\<rparr>"

text \<open>The table and the questionnaire data of \<open>test_user_profile\<close> in test\_app.py.\<close>

definition test_transactions :: "date_cell transaction list" where
  "test_transactions =
     [row (DateText ''2024-01-01'') ''SALARY'' 50000 ''Credit'' ''Income'',
      row (DateText ''2024-01-02'') ''SWIGGY'' 300 ''Debit'' ''Food & Dining'',
      row (DateText ''2024-01-03'') ''UBER'' 150 ''Debit'' ''Transportation'',
      row (DateText ''2024-01-04'') ''AMAZON'' 2000 ''Debit'' ''Shopping'',
      row (DateText ''2024-01-05'') ''ELECTRICITY BILL'' 1200 ''Debit'' ''Bills & Utilities'']"

definition test_profile :: user_profile where
  "test_profile =
     \<lparr>created_date = ''2024-02-01T10:00:00'',
      user_info = [(''age'', ''26-35''), (''occupation'', ''Software Engineer'')],
      financial_goals =
        Some \<lparr>monthly_savings_target = Some 15000,
              priority_categories = [''Food & Dining'', ''Transportation''],
              cut_cost_areas = [''Food & Dining'', ''Entertainment'']\<rparr>,
      transaction_analysis = None\<rparr>"

text \<open>
  A converted table with income in January and March only, and expenses of eight categories in
  February and March, two of them with equal sums.
\<close>

definition sample_df :: "date transaction list" where
  "sample_df =
     [row (2024, 1, 5) ''SALARY'' 400 ''Credit'' ''Income'',
      row (2024, 1, 20) ''BONUS'' 600 ''Credit'' ''Income'',
      row (2024, 2, 3) ''SWIGGY'' 250 ''Debit'' ''Food & Dining'',
      row (2024, 2, 7) ''UBER'' 150 ''Debit'' ''Transportation'',
      row (2024, 2, 11) ''AMAZON'' 2000 ''Debit'' ''Shopping'',
      row (2024, 2, 15) ''ELECTRICITY BILL'' 1200 ''Debit'' ''Bills & Utilities'',
      row (2024, 3, 1) ''SALARY'' 3000 ''Credit'' ''Income'',
      row (2024, 3, 2) ''NETFLIX'' 199 ''Debit'' ''Entertainment'',
      row (2024, 3, 9) ''PHARMACY'' 150 ''Debit'' ''Healthcare'',
      row (2024, 3, 12) ''COURSE FEE'' 500 ''Debit'' ''Education'',
      row (2024, 3, 20) ''HOTEL'' 800 ''Debit'' ''Travel'',
      row (2024, 3, 25) ''CAFE'' 50 ''Debit'' ''Food & Dining'']"

text \<open>Tables with a single populated month, and with income rows only.\<close>

definition january_df :: "date transaction list" where
  "january_df =
     [row (2024, 1, 2) ''SWIGGY'' 300 ''Debit'' ''Food & Dining'',
      row (2024, 1, 3) ''UBER'' 150 ''Debit'' ''Transportation'']"

definition income_only_df :: "date transaction list" where
  "income_only_df = [row (2024, 1, 1) ''SALARY'' 50000 ''Credit'' ''Income'']"

text \<open>What \<open>analyze_transactions\<close> leaves of the test table, and the analysis it attaches.\<close>

definition test_transactions_converted :: "date_cell transaction list" where
  "test_transactions_converted =
     [row (Timestamp (2024, 1, 1)) ''SALARY'' 50000 ''Credit'' ''Income'',
      row (Timestamp (2024, 1, 2)) ''SWIGGY'' 300 ''Debit'' ''Food & Dining'',
      row (Timestamp (2024, 1, 3)) ''UBER'' 150 ''Debit'' ''Transportation'',
      row (Timestamp (2024, 1, 4)) ''AMAZON'' 2000 ''Debit'' ''Shopping'',
      row (Timestamp (2024, 1, 5)) ''ELECTRICITY BILL'' 1200 ''Debit'' ''Bills & Utilities'']"

definition test_analysis :: analysis where
  "test_analysis =
     \<lparr>total_transactions = 5,
      date_range = ((2024, 1, 1), (2024, 1, 5)),
      income =
        \<lparr>total_income = 50000, monthly_income_avg = 50000,
         income_sources = [(''SALARY'', 1)]\<rparr>,
      expenses =
        \<lparr>total_expenses = 3650, monthly_expenses_avg = 3650,
         expense_breakdown =
           [(''Shopping'', 2000), (''Bills & Utilities'', 1200), (''Food & Dining'', 300),
            (''Transportation'', 150)],
         top_spending_categories =
           [(''Shopping'', 2000), (''Bills & Utilities'', 1200), (''Food & Dining'', 300),
            (''Transportation'', 150)]\<rparr>,
      patterns =
        \<lparr>spending_trend = ''insufficient_data'',
         highest_spending_month = Some (2024, 1),
         lowest_spending_month = Some (2024, 1),
         monthly_spending = Some [((2024, 1), 3650)]\<rparr>,
      financial_health_score = 85\<rparr>"





section \<open>Properties of the categorizer\<close>

lemma starts_with_iff: "starts_with k d \<longleftrightarrow> (\<exists>s. d = k @ s)"
  by (induction k d rule: starts_with.induct) auto

lemma contains_iff: "contains k d \<longleftrightarrow> (\<exists>p s. d = p @ k @ s)"
proof (induction d)
  case Nil
  show ?case by simp
next
  case (Cons c cs)
  show ?case
  proof
    assume "contains k (c # cs)"
    then consider "starts_with k (c # cs)" | "contains k cs" by auto
    then show "\<exists>p s. c # cs = p @ k @ s"
    proof cases
      case 1
      then obtain s where "c # cs = k @ s" by (auto simp: starts_with_iff)
      then have "c # cs = [] @ k @ s" by simp
      then show ?thesis by blast
    next
      case 2
      then obtain p s where "cs = p @ k @ s" using Cons.IH by auto
      then have "c # cs = (c # p) @ k @ s" by simp
      then show ?thesis by blast
    qed
  next
    assume "\<exists>p s. c # cs = p @ k @ s"
    then obtain p s where ps: "c # cs = p @ k @ s" by auto
    show "contains k (c # cs)"
    proof (cases p)
      case Nil
      then have "starts_with k (c # cs)" using ps by (auto simp: starts_with_iff)
      then show ?thesis by simp
    next
      case (Cons x p')
      then have "cs = p' @ k @ s" using ps by simp
      then have "contains k cs" using Cons.IH by blast
      then show ?thesis by simp
    qed
  qed
qed

lemma scan_keywords_find:
  "scan_keywords c ks d = map_option fst (find (\<lambda>p. contains (snd p) d) (map (Pair c) ks))"
  by (induction ks) auto

lemma find_append_cases:
  "find P (xs @ ys) = (case find P xs of Some x \<Rightarrow> Some x | None \<Rightarrow> find P ys)"
  by (induction xs) auto

lemma scan_categories_find:
  "scan_categories tbl d = map_option fst (find (\<lambda>p. contains (snd p) d) (table_pairs tbl))"
proof (induction tbl)
  case Nil
  show ?case by (simp add: table_pairs_def)
next
  case (Cons ck tbl)
  obtain c ks where ck: "ck = (c, ks)" by (cases ck)
  have tp: "table_pairs (ck # tbl) = map (Pair c) ks @ table_pairs tbl"
    by (simp add: table_pairs_def ck)
  show ?case
    unfolding tp find_append_cases
    using Cons.IH by (simp add: ck scan_keywords_find split: option.splits)
qed

lemma categorize_transaction_find:
  "categorize_transaction d a t =
     (case find (\<lambda>p. contains (snd p) (lower d)) keyword_pairs of
        Some p \<Rightarrow> fst p
      | None \<Rightarrow>
          if t = ''Credit'' then ''Income''
          else if a > 10000 then ''Shopping''
          else if a > 1000 then ''Bills & Utilities''
          else ''Other'')"
  by (simp add: categorize_transaction_def scan_categories_find keyword_pairs_def
      split: option.splits)

lemma scan_uber_food:
  "scan_categories CATEGORY_KEYWORDS (lower ''uber food delivery'') = Some ''Food & Dining''"
  by code_simp

lemma scan_xyz123: "scan_categories CATEGORY_KEYWORDS (lower ''XYZ123'') = None"
  by code_simp

text \<open>
  C1. When the lower-cased description contains keywords of several categories, the result
  is the category of the first (category, keyword) pair, in the order of the table (categories
  in table order, keywords in declaration order), whose keyword occurs in the text; where in
  the text the keywords occur plays no role. In particular \<open>uber food delivery\<close> is
  \<open>Food & Dining\<close> for every amount and type.
\<close>

theorem categorize_first_pair_wins:
  "(i < length keyword_pairs \<and> contains (snd (keyword_pairs ! i)) (lower d) \<and>
      (\<forall>j<i. \<not> contains (snd (keyword_pairs ! j)) (lower d))
      \<longrightarrow> categorize_transaction d a t = fst (keyword_pairs ! i)) \<and>
   categorize_transaction ''uber food delivery'' a t = ''Food & Dining''"
proof
  show "i < length keyword_pairs \<and> contains (snd (keyword_pairs ! i)) (lower d) \<and>
      (\<forall>j<i. \<not> contains (snd (keyword_pairs ! j)) (lower d))
      \<longrightarrow> categorize_transaction d a t = fst (keyword_pairs ! i)"
  proof
    assume h: "i < length keyword_pairs \<and> contains (snd (keyword_pairs ! i)) (lower d) \<and>
      (\<forall>j<i. \<not> contains (snd (keyword_pairs ! j)) (lower d))"
    then have "find (\<lambda>p. contains (snd p) (lower d)) keyword_pairs = Some (keyword_pairs ! i)"
      unfolding find_Some_iff by blast
    then show "categorize_transaction d a t = fst (keyword_pairs ! i)"
      by (simp add: categorize_transaction_find)
  qed
next
  show "categorize_transaction ''uber food delivery'' a t = ''Food & Dining''"
    by (simp only: categorize_transaction_def Let_def scan_uber_food option.case)
qed

theorem categorize_first_pair_wins_witness:
  "19 < length keyword_pairs \<and> contains (snd (keyword_pairs ! 19)) (lower ''UBER RIDE'') \<and>
   list_all (\<lambda>p. \<not> contains (snd p) (lower ''UBER RIDE'')) (take 19 keyword_pairs) \<and>
   contains ''ride'' (lower ''UBER RIDE'') \<and>
   categorize_transaction ''UBER RIDE'' 120 ''Debit'' = ''Transportation'' \<and>
   keyword_pairs ! 19 = (''Transportation'', ''uber'')"
proof -
  have h1: "19 < length keyword_pairs" by code_simp
  have h2: "contains (snd (keyword_pairs ! 19)) (lower ''UBER RIDE'')" by code_simp
  have h3: "\<forall>j<19. \<not> contains (snd (keyword_pairs ! j)) (lower ''UBER RIDE'')" by code_simp
  have h4: "keyword_pairs ! 19 = (''Transportation'', ''uber'')" by code_simp
  have h5: "list_all (\<lambda>p. \<not> contains (snd p) (lower ''UBER RIDE'')) (take 19 keyword_pairs)"
    by code_simp
  have h6: "contains ''ride'' (lower ''UBER RIDE'')" by code_simp
  from categorize_first_pair_wins [of 19 "''UBER RIDE''" 120 "''Debit''"] h1 h2 h3
  have "categorize_transaction ''UBER RIDE'' 120 ''Debit'' = fst (keyword_pairs ! 19)"
    by blast
  with h1 h2 h4 h5 h6 show ?thesis by simp
qed

text \<open>
  C2. When the lower-cased description contains no keyword of any category, the result is
  \<open>Income\<close> for type \<open>Credit\<close>, else \<open>Shopping\<close> for an amount above 10000, else
  \<open>Bills & Utilities\<close> for an amount above 1000, else \<open>Other\<close>; both comparisons are strict,
  so a debit of exactly 10000 is \<open>Bills & Utilities\<close> and a debit of exactly 1000 is \<open>Other\<close>.
\<close>

theorem categorize_fallback_chain:
  "((\<forall>p \<in> set keyword_pairs. \<not> contains (snd p) (lower d)) \<longrightarrow>
      categorize_transaction d a t =
        (if t = ''Credit'' then ''Income''
         else if a > 10000 then ''Shopping''
         else if a > 1000 then ''Bills & Utilities''
         else ''Other'')) \<and>
   categorize_transaction ''XYZ123'' 10000 ''Debit'' = ''Bills & Utilities'' \<and>
   categorize_transaction ''XYZ123'' 1000 ''Debit'' = ''Other''"
proof (intro conjI impI)
  assume "\<forall>p \<in> set keyword_pairs. \<not> contains (snd p) (lower d)"
  then have "find (\<lambda>p. contains (snd p) (lower d)) keyword_pairs = None"
    unfolding find_None_iff by blast
  then show "categorize_transaction d a t =
        (if t = ''Credit'' then ''Income''
         else if a > 10000 then ''Shopping''
         else if a > 1000 then ''Bills & Utilities''
         else ''Other'')"
    by (simp add: categorize_transaction_find)
next
  show "categorize_transaction ''XYZ123'' 10000 ''Debit'' = ''Bills & Utilities''"
    by (simp add: categorize_transaction_def scan_xyz123)
next
  show "categorize_transaction ''XYZ123'' 1000 ''Debit'' = ''Other''"
    by (simp add: categorize_transaction_def scan_xyz123)
qed

theorem categorize_fallback_chain_witness:
  "list_all (\<lambda>p. \<not> contains (snd p) (lower ''XYZ123'')) keyword_pairs \<and>
   categorize_transaction ''XYZ123'' 50000 ''Credit'' = ''Income'' \<and>
   categorize_transaction ''XYZ123'' 15000 ''Debit'' = ''Shopping'' \<and>
   categorize_transaction ''XYZ123'' 1500 ''Debit'' = ''Bills & Utilities'' \<and>
   categorize_transaction ''XYZ123'' 100 ''Debit'' = ''Other''"
proof -
  have h: "\<forall>p \<in> set keyword_pairs. \<not> contains (snd p) (lower ''XYZ123'')" by code_simp
  have a: "categorize_transaction ''XYZ123'' 50000 ''Credit'' = ''Income''"
    using categorize_fallback_chain [of "''XYZ123''" 50000 "''Credit''"] h by simp
  have b: "categorize_transaction ''XYZ123'' 15000 ''Debit'' = ''Shopping''"
    using categorize_fallback_chain [of "''XYZ123''" 15000 "''Debit''"] h by simp
  have c: "categorize_transaction ''XYZ123'' 1500 ''Debit'' = ''Bills & Utilities''"
    using categorize_fallback_chain [of "''XYZ123''" 1500 "''Debit''"] h by simp
  have e: "categorize_transaction ''XYZ123'' 100 ''Debit'' = ''Other''"
    using categorize_fallback_chain [of "''XYZ123''" 100 "''Debit''"] h by simp
  from h have "list_all (\<lambda>p. \<not> contains (snd p) (lower ''XYZ123'')) keyword_pairs"
    by (simp only: list_all_iff)
  with a b c e show ?thesis by blast
qed

text \<open>
  C3, as the code has it. A debit whose description contains an \<open>Income\<close> keyword and no
  keyword of an earlier category is categorized \<open>Income\<close> by the keyword loops, which never
  look at the type.
\<close>

theorem debit_income_counterexample:
  "categorize_transaction ''LOAN PAYMENT'' 500 ''Debit'' = ''Income''"
  by code_simp

text \<open>
  C3, amended. The result is \<open>Income\<close> exactly when the first pair of the table whose keyword
  occurs in the lower-cased description belongs to \<open>Income\<close> or, no keyword occurring at all,
  the type is \<open>Credit\<close>: the fallback never gives \<open>Income\<close> to a debit, the keyword loops may.
\<close>

theorem categorize_income_iff:
  "categorize_transaction d a t = ''Income'' \<longleftrightarrow>
     (case find (\<lambda>p. contains (snd p) (lower d)) keyword_pairs of
        Some p \<Rightarrow> fst p = ''Income''
      | None \<Rightarrow> t = ''Credit'')"
  by (simp add: categorize_transaction_find split: option.splits)

theorem categorize_income_iff_witness:
  "find (\<lambda>p. contains (snd p) (lower ''LOAN PAYMENT'')) keyword_pairs =
     Some (''Income'', ''payment'') \<and>
   categorize_transaction ''LOAN PAYMENT'' 500 ''Debit'' = ''Income'' \<and>
   find (\<lambda>p. contains (snd p) (lower ''XYZ123'')) keyword_pairs = None \<and>
   categorize_transaction ''XYZ123'' 500 ''Debit'' \<noteq> ''Income'' \<and>
   categorize_transaction ''XYZ123'' 500 ''Credit'' = ''Income''"
proof -
  have f1: "find (\<lambda>p. contains (snd p) (lower ''LOAN PAYMENT'')) keyword_pairs =
      Some (''Income'', ''payment'')"
    by code_simp
  have f2: "find (\<lambda>p. contains (snd p) (lower ''XYZ123'')) keyword_pairs = None"
    by code_simp
  have a: "categorize_transaction ''LOAN PAYMENT'' 500 ''Debit'' = ''Income''"
    using categorize_income_iff [of "''LOAN PAYMENT''" 500 "''Debit''"] by (simp add: f1)
  have b: "categorize_transaction ''XYZ123'' 500 ''Debit'' \<noteq> ''Income''"
    using categorize_income_iff [of "''XYZ123''" 500 "''Debit''"] by (simp add: f2)
  have c: "categorize_transaction ''XYZ123'' 500 ''Credit'' = ''Income''"
    using categorize_income_iff [of "''XYZ123''" 500 "''Credit''"] by (simp add: f2)
  from f1 f2 a b c show ?thesis by blast
qed

section \<open>Properties of the analysis\<close>

subsection \<open>Grouping and summing\<close>

lemma add_to_group_keys:
  "sorted (map fst gs) \<Longrightarrow> distinct (map fst gs) \<Longrightarrow>
   map fst (add_to_group k v gs) =
     (if k \<in> set (map fst gs) then map fst gs else insort k (map fst gs))"
proof (induction gs)
  case Nil
  show ?case by simp
next
  case (Cons g gs)
  obtain k' s where g: "g = (k', s)" by (cases g)
  from Cons.prems have sd: "sorted (map fst gs)" "distinct (map fst gs)"
    and le: "\<forall>x \<in> set (map fst gs). k' \<le> x" by (auto simp: g)
  show ?case
  proof (cases "k = k'")
    case True
    then show ?thesis by (simp add: g)
  next
    case False
    show ?thesis
    proof (cases "k < k'")
      case True
      then have "k \<notin> set (map fst gs)" using le by auto
      with True False show ?thesis by (simp add: g)
    next
      case ge: False
      with False have "k' < k" by simp
      then show ?thesis using False ge Cons.IH [OF sd] by (auto simp: g)
    qed
  qed
qed

lemma add_to_group_map_of:
  "sorted (map fst gs) \<Longrightarrow>
   map_of (add_to_group k v gs) =
     (map_of gs)(k \<mapsto> (case map_of gs k of None \<Rightarrow> v | Some s \<Rightarrow> s + v))"
proof (induction gs)
  case Nil
  show ?case by simp
next
  case (Cons g gs)
  obtain k' s where g: "g = (k', s)" by (cases g)
  from Cons.prems have sd: "sorted (map fst gs)"
    and le: "\<forall>x \<in> set (map fst gs). k' \<le> x" by (auto simp: g)
  show ?case
  proof (cases "k = k'")
    case True
    then show ?thesis by (auto simp: g)
  next
    case False
    show ?thesis
    proof (cases "k < k'")
      case True
      then have "k \<notin> fst ` set gs" using le by auto
      then have "map_of gs k = None" by (simp add: map_of_eq_None_iff)
      with True False show ?thesis by (auto simp: g)
    next
      case ge: False
      show ?thesis using False ge Cons.IH [OF sd] by (auto simp: g)
    qed
  qed
qed

lemma groupby_sum_sorted_distinct:
  "sorted (map fst (groupby_sum key rows)) \<and> distinct (map fst (groupby_sum key rows))"
proof (induction rows)
  case Nil
  show ?case by simp
next
  case (Cons r rows)
  then show ?case
    by (simp add: add_to_group_keys sorted_insort distinct_insort)
qed

lemma add_to_group_key_set: "fst ` set (add_to_group k v gs) = insert k (fst ` set gs)"
  by (induction k v gs rule: add_to_group.induct) auto

lemma groupby_sum_key_set: "fst ` set (groupby_sum key rows) = key ` set rows"
  by (induction rows) (auto simp: add_to_group_key_set)

lemma groupby_sum_keys:
  "map fst (groupby_sum key rows) = sorted_list_of_set (key ` set rows)"
proof -
  have "set (map fst (groupby_sum key rows)) = key ` set rows"
    by (simp add: groupby_sum_key_set)
  then show ?thesis
    using groupby_sum_sorted_distinct [of key rows]
    by (metis sorted_list_of_set.idem_if_sorted_distinct)
qed

lemma groupby_sum_map_of:
  "map_of (groupby_sum key rows) k =
     (if k \<in> key ` set rows
      then Some (sum_list (map amount (filter (\<lambda>r. key r = k) rows)))
      else None)"
proof (induction rows)
  case Nil
  show ?case by simp
next
  case (Cons r rows)
  have s: "sorted (map fst (groupby_sum key rows))"
    using groupby_sum_sorted_distinct [of key rows] by simp
  have e: "filter (\<lambda>ra. key ra = key r) rows = []" if "key r \<notin> key ` set rows"
  proof -
    have "key x \<noteq> key r" if "x \<in> set rows" for x
      using that \<open>key r \<notin> key ` set rows\<close> by (metis image_eqI)
    then show ?thesis by (simp add: filter_empty_conv)
  qed
  show ?case
    using Cons.IH e by (auto simp: add_to_group_map_of [OF s])
qed

lemma groupby_sum_spec:
  "groupby_sum key rows =
     map (\<lambda>k. (k, sum_list (map amount (filter (\<lambda>r. key r = k) rows))))
       (sorted_list_of_set (key ` set rows))"
proof -
  let ?gs = "groupby_sum key rows"
  let ?F = "\<lambda>k. sum_list (map amount (filter (\<lambda>r. key r = k) rows))"
  have d: "distinct (map fst ?gs)" using groupby_sum_sorted_distinct [of key rows] by simp
  have v: "snd g = ?F (fst g)" if "g \<in> set ?gs" for g
  proof -
    from that have "(fst g, snd g) \<in> set ?gs" by simp
    then have "map_of ?gs (fst g) = Some (snd g)" using d by (simp only: map_of_eq_Some_iff)
    moreover have "fst g \<in> key ` set rows" using that groupby_sum_key_set [of key rows] by blast
    ultimately show ?thesis by (simp add: groupby_sum_map_of)
  qed
  have "map (\<lambda>g. (fst g, ?F (fst g))) ?gs = ?gs"
    by (rule map_idI) (simp add: v [symmetric])
  then have "?gs = map (\<lambda>k. (k, ?F k)) (map fst ?gs)"
    by (simp add: comp_def)
  then show ?thesis by (simp only: groupby_sum_keys)
qed

lemma groupby_sum_nonempty: "rows \<noteq> [] \<Longrightarrow> groupby_sum key rows \<noteq> []"
proof -
  assume "rows \<noteq> []"
  then have "key ` set rows \<noteq> {}" by simp
  then have "fst ` set (groupby_sum key rows) \<noteq> {}" by (simp add: groupby_sum_key_set)
  then show ?thesis by auto
qed

lemma groupby_month_spec:
  "groupby_sum (\<lambda>r. to_period_M (date r)) rows =
     map (\<lambda>m. (m, month_sum rows m)) (populated_months rows)"
  unfolding month_sum_def populated_months_def by (rule groupby_sum_spec)

lemma monthly_mean_spec:
  "series_mean (map snd (groupby_sum (\<lambda>r. to_period_M (date r)) rows)) =
     populated_months_mean rows"
  by (simp add: groupby_month_spec series_mean_def populated_months_mean_def comp_def)

lemma populated_months_nonempty: "rows \<noteq> [] \<Longrightarrow> populated_months rows \<noteq> []"
  using groupby_sum_nonempty [of rows "\<lambda>r. to_period_M (date r)"]
  by (simp add: groupby_month_spec)

subsection \<open>Monthly averages\<close>

text \<open>
  C4. When there is an income row, \<open>monthly_income_avg\<close> is the arithmetic mean of the
  per-month sums over the months that have an income row; a month without one is not among
  them and does not count as zero. With income in two months only, of sums 1000 and 3000, the
  average is 2000. \<open>monthly_expenses_avg\<close> is the same mean over the rows that are not income.
\<close>

theorem monthly_avg_over_populated_months:
  "(income_rows df \<noteq> [] \<longrightarrow>
      monthly_income_avg (analyze_income lib df) = populated_months_mean (income_rows df)) \<and>
   (populated_months (income_rows df) = [m1, m3] \<and>
    month_sum (income_rows df) m1 = 1000 \<and> month_sum (income_rows df) m3 = 3000 \<longrightarrow>
      monthly_income_avg (analyze_income lib df) = 2000) \<and>
   (non_income_rows df \<noteq> [] \<longrightarrow>
      monthly_expenses_avg (analyze_expenses lib df) = populated_months_mean (non_income_rows df))"
proof (intro conjI impI)
  assume "income_rows df \<noteq> []"
  then show "monthly_income_avg (analyze_income lib df) = populated_months_mean (income_rows df)"
    by (simp add: analyze_income_def income_rows_def [symmetric] Let_def monthly_mean_spec)
next
  assume h: "populated_months (income_rows df) = [m1, m3] \<and>
    month_sum (income_rows df) m1 = 1000 \<and> month_sum (income_rows df) m3 = 3000"
  have "income_rows df \<noteq> []"
  proof
    assume "income_rows df = []"
    then have "populated_months (income_rows df) = []" by (simp add: populated_months_def)
    with h show False by simp
  qed
  then have "monthly_income_avg (analyze_income lib df) = populated_months_mean (income_rows df)"
    by (simp add: analyze_income_def income_rows_def [symmetric] Let_def monthly_mean_spec)
  with h show "monthly_income_avg (analyze_income lib df) = 2000"
    by (simp add: populated_months_mean_def)
next
  assume "non_income_rows df \<noteq> []"
  then show "monthly_expenses_avg (analyze_expenses lib df) =
      populated_months_mean (non_income_rows df)"
    by (simp add: analyze_expenses_def non_income_rows_def [symmetric] Let_def monthly_mean_spec)
qed

theorem monthly_avg_over_populated_months_witness:
  "income_rows sample_df \<noteq> [] \<and>
   populated_months (income_rows sample_df) = [(2024, 1), (2024, 3)] \<and>
   month_sum (income_rows sample_df) (2024, 1) = 1000 \<and>
   month_sum (income_rows sample_df) (2024, 3) = 3000 \<and>
   monthly_income_avg (analyze_income sample_library sample_df) = 2000 \<and>
   non_income_rows sample_df \<noteq> [] \<and>
   populated_months (non_income_rows sample_df) = [(2024, 2), (2024, 3)] \<and>
   populated_months_mean (non_income_rows sample_df) = 5299 / 2 \<and>
   monthly_expenses_avg (analyze_expenses sample_library sample_df) = 5299 / 2"
proof -
  have h1: "income_rows sample_df \<noteq> []" by code_simp
  have h2: "populated_months (income_rows sample_df) = [(2024, 1), (2024, 3)]" by code_simp
  have h3: "month_sum (income_rows sample_df) (2024, 1) = 1000" by code_simp
  have h4: "month_sum (income_rows sample_df) (2024, 3) = 3000" by code_simp
  have h5: "non_income_rows sample_df \<noteq> []" by code_simp
  have h6: "populated_months (non_income_rows sample_df) = [(2024, 2), (2024, 3)]"
    by code_simp
  have h7: "populated_months_mean (non_income_rows sample_df) = 5299 / 2" by code_simp
  from monthly_avg_over_populated_months [of sample_df sample_library "(2024, 1)" "(2024, 3)"]
    h1 h2 h3 h4 h5 h7
  have "monthly_income_avg (analyze_income sample_library sample_df) = 2000 \<and>
        monthly_expenses_avg (analyze_expenses sample_library sample_df) = 5299 / 2"
    by simp
  with h1 h2 h3 h4 h5 h6 h7 show ?thesis by simp
qed

subsection \<open>The health score\<close>







subsection \<open>Empty inputs\<close>

text \<open>
  C8. Without income rows \<open>_analyze_income\<close> returns the totals 0 and no sources; without
  other rows \<open>_analyze_expenses\<close> returns the totals 0, an empty breakdown and no top
  categories, and \<open>_analyze_spending_patterns\<close> returns the trend \<open>stable\<close> and no highest
  or lowest month. These results are returned before any mean is computed; where a mean is
  computed, the rows are not empty and there is at least one month group to divide by.
\<close>

theorem analyzers_empty_defaults:
  "(income_rows df = [] \<longrightarrow>
      analyze_income lib df =
        \<lparr>total_income = 0, monthly_income_avg = 0, income_sources = []\<rparr>) \<and>
   (non_income_rows df = [] \<longrightarrow>
      analyze_expenses lib df =
        \<lparr>total_expenses = 0, monthly_expenses_avg = 0, expense_breakdown = [],
         top_spending_categories = []\<rparr> \<and>
      analyze_spending_patterns lib df =
        \<lparr>spending_trend = ''stable'', highest_spending_month = None,
         lowest_spending_month = None, monthly_spending = None\<rparr>) \<and>
   (rows \<noteq> [] \<longrightarrow> 0 < length (groupby_sum (\<lambda>r. to_period_M (date r)) rows))"
proof (intro conjI impI)
  assume "income_rows df = []"
  then show "analyze_income lib df =
      \<lparr>total_income = 0, monthly_income_avg = 0, income_sources = []\<rparr>"
    by (simp add: analyze_income_def income_rows_def)
next
  assume "non_income_rows df = []"
  then show "analyze_expenses lib df =
      \<lparr>total_expenses = 0, monthly_expenses_avg = 0, expense_breakdown = [],
       top_spending_categories = []\<rparr>"
    by (simp add: analyze_expenses_def non_income_rows_def)
next
  assume "non_income_rows df = []"
  then show "analyze_spending_patterns lib df =
      \<lparr>spending_trend = ''stable'', highest_spending_month = None,
       lowest_spending_month = None, monthly_spending = None\<rparr>"
    by (simp add: analyze_spending_patterns_def non_income_rows_def)
next
  assume "rows \<noteq> []"
  then show "0 < length (groupby_sum (\<lambda>r. to_period_M (date r)) rows)"
    using groupby_sum_nonempty [of rows] by simp
qed

theorem analyzers_empty_defaults_witness:
  "income_rows january_df = [] \<and>
   analyze_income sample_library january_df =
     \<lparr>total_income = 0, monthly_income_avg = 0, income_sources = []\<rparr> \<and>
   non_income_rows income_only_df = [] \<and>
   analyze_expenses sample_library income_only_df =
     \<lparr>total_expenses = 0, monthly_expenses_avg = 0, expense_breakdown = [],
      top_spending_categories = []\<rparr> \<and>
   analyze_spending_patterns sample_library income_only_df =
     \<lparr>spending_trend = ''stable'', highest_spending_month = None,
      lowest_spending_month = None, monthly_spending = None\<rparr> \<and>
   january_df \<noteq> [] \<and>
   0 < length (groupby_sum (\<lambda>r. to_period_M (date r)) january_df)"
proof -
  have h1: "income_rows january_df = []" by code_simp
  have h2: "non_income_rows income_only_df = []" by code_simp
  have h3: "january_df \<noteq> []" by code_simp
  from analyzers_empty_defaults
      [where df = january_df and lib = sample_library and rows = january_df] h1 h3
  have a: "analyze_income sample_library january_df =
      \<lparr>total_income = 0, monthly_income_avg = 0, income_sources = []\<rparr> \<and>
      0 < length (groupby_sum (\<lambda>r. to_period_M (date r)) january_df)"
    by blast
  from analyzers_empty_defaults
      [where df = income_only_df and lib = sample_library and rows = january_df] h2
  have b: "analyze_expenses sample_library income_only_df =
      \<lparr>total_expenses = 0, monthly_expenses_avg = 0, expense_breakdown = [],
       top_spending_categories = []\<rparr> \<and>
    analyze_spending_patterns sample_library income_only_df =
      \<lparr>spending_trend = ''stable'', highest_spending_month = None,
       lowest_spending_month = None, monthly_spending = None\<rparr>"
    by blast
  from h1 h2 h3 a b show ?thesis by blast
qed

subsection \<open>The effect of an analysis run on the table and the profile\<close>

lemma to_datetime_length: "to_datetime cs = Inr ds \<Longrightarrow> length ds = length cs"
  by (induction cs arbitrary: ds) (auto split: sum.splits)

lemma to_datetime_cells: "to_datetime cs = Inr ds \<Longrightarrow> map to_datetime_cell cs = map Inr ds"
  by (induction cs arbitrary: ds) (auto split: sum.splits)

lemma to_datetime_timestamps:
  "list_all is_timestamp cs \<Longrightarrow> to_datetime cs = Inr ds \<Longrightarrow> map Timestamp ds = cs"
proof (induction cs arbitrary: ds)
  case Nil
  then show ?case by simp
next
  case (Cons c cs)
  from Cons.prems(1) obtain d where c: "c = Timestamp d" by (cases c) auto
  from Cons.prems(2) obtain ds' where ds: "to_datetime cs = Inr ds'" "ds = d # ds'"
    by (auto simp: c split: sum.splits)
  from Cons.prems(1) have "list_all is_timestamp cs" by simp
  then have "map Timestamp ds' = cs" using ds(1) by (rule Cons.IH)
  then show ?case by (simp add: c ds(2))
qed

text \<open>The table after the assignment to the \<open>date\<close> column.\<close>

lemma assigned_table_fields:
  "length ds = length df \<Longrightarrow>
   map description (map (\<lambda>r. set_date r (Timestamp (date r))) (map2 set_date df ds))
     = map description df \<and>
   map amount (map (\<lambda>r. set_date r (Timestamp (date r))) (map2 set_date df ds))
     = map amount df \<and>
   map type (map (\<lambda>r. set_date r (Timestamp (date r))) (map2 set_date df ds))
     = map type df \<and>
   map category (map (\<lambda>r. set_date r (Timestamp (date r))) (map2 set_date df ds))
     = map category df \<and>
   map date (map (\<lambda>r. set_date r (Timestamp (date r))) (map2 set_date df ds))
     = map Timestamp ds"
proof (induction df arbitrary: ds)
  case Nil
  then show ?case by simp
next
  case (Cons r df)
  then obtain d ds' where ds: "ds = d # ds'" "length ds' = length df" by (cases ds) auto
  from Cons.IH [OF ds(2)] show ?case by (simp add: ds(1) set_date_def)
qed

lemma rows_eq_by_fields:
  fixes xs ys :: "'d transaction list"
  assumes "map date xs = map date ys" "map description xs = map description ys"
    "map amount xs = map amount ys" "map type xs = map type ys"
    "map category xs = map category ys"
  shows "xs = ys"
  using assms
proof (induction xs arbitrary: ys)
  case Nil
  then show ?case by simp
next
  case (Cons x xs)
  then obtain y ys' where ys: "ys = y # ys'" by (cases ys) auto
  from Cons.prems have "x = y" by (simp add: ys)
  moreover from Cons.prems have "xs = ys'" by (intro Cons.IH) (simp_all add: ys)
  ultimately show ?case by (simp add: ys)
qed

lemma health_score_ignores_previous_analysis:
  "calculate_financial_health_score a (p\<lparr>transaction_analysis := old\<rparr>) =
   calculate_financial_health_score a p"
proof -
  have g: "financial_goals (p\<lparr>transaction_analysis := old\<rparr>) = financial_goals p" by simp
  show ?thesis by (simp only: calculate_financial_health_score_def g)
qed

lemma build_analysis_ignores_previous_analysis:
  "build_analysis lib df (p\<lparr>transaction_analysis := old\<rparr>) = build_analysis lib df p"
  by (simp only: build_analysis_def health_score_ignores_previous_analysis)


lemma analyze_transactions_nonempty:
  assumes "df \<noteq> []" "to_datetime (map date df) = Inr ds"
  shows "analyze_transactions lib df p =
     Inr (map (\<lambda>r. set_date r (Timestamp (date r))) (map2 set_date df ds),
          p\<lparr>transaction_analysis := Some (build_analysis lib (map2 set_date df ds) p)\<rparr>)"
  using assms by (simp add: analyze_transactions_def)

lemma analyze_transactions_result:
  assumes "analyze_transactions lib df p = Inr (df', p')" "df \<noteq> []"
  obtains ds where "to_datetime (map date df) = Inr ds"
    "df' = map (\<lambda>r. set_date r (Timestamp (date r))) (map2 set_date df ds)"
    "p' = p\<lparr>transaction_analysis := Some (build_analysis lib (map2 set_date df ds) p)\<rparr>"
proof (cases "to_datetime (map date df)")
  case (Inl e)
  with assms show ?thesis by (simp add: analyze_transactions_def)
next
  case (Inr ds)
  with assms that [of ds] show ?thesis by (simp add: analyze_transactions_def)
qed

lemma analyze_test_transactions:
  "analyze_transactions sample_library test_transactions test_profile =
     Inr (test_transactions_converted,
          test_profile\<lparr>transaction_analysis := Some test_analysis\<rparr>)"
  by code_simp

lemma analyze_converted_test_transactions:
  "analyze_transactions sample_library test_transactions_converted test_profile =
     Inr (test_transactions_converted,
          test_profile\<lparr>transaction_analysis := Some test_analysis\<rparr>)"
  by code_simp

text \<open>
  C9, as the code has it. \<open>analyze_transactions\<close> assigns the converted dates to the \<open>date\<close>
  column of the table it was given: the test table, whose dates are text, holds timestamps
  after the run.
\<close>

theorem analysis_run_rewrites_dates_counterexample:
  "analyze_transactions sample_library test_transactions test_profile =
     Inr (test_transactions_converted,
          test_profile\<lparr>transaction_analysis := Some test_analysis\<rparr>) \<and>
   map date test_transactions_converted \<noteq> map date test_transactions"
proof
  show "analyze_transactions sample_library test_transactions test_profile =
     Inr (test_transactions_converted,
          test_profile\<lparr>transaction_analysis := Some test_analysis\<rparr>)"
    by (rule analyze_test_transactions)
next
  show "map date test_transactions_converted \<noteq> map date test_transactions"
    by code_simp
qed

text \<open>
  C9, amended. An analysis run that returns leaves the descriptions, amounts, types and
  categories of all rows, and the number and order of the rows, as they were; the \<open>date\<close>
  column is overwritten by its conversion to timestamps, so every row still denotes the same
  calendar date, and a table whose dates were timestamps already is the same before and after.
\<close>

theorem analysis_run_table_effect:
  "analyze_transactions lib df p = Inr (df', p') \<longrightarrow>
     map description df' = map description df \<and>
     map amount df' = map amount df \<and>
     map type df' = map type df \<and>
     map category df' = map category df \<and>
     map (\<lambda>r. to_datetime_cell (date r)) df' = map (\<lambda>r. to_datetime_cell (date r)) df \<and>
     list_all (\<lambda>r. is_timestamp (date r)) df' \<and>
     (list_all (\<lambda>r. is_timestamp (date r)) df \<longrightarrow> df' = df)"
proof
  assume run: "analyze_transactions lib df p = Inr (df', p')"
  show "map description df' = map description df \<and>
     map amount df' = map amount df \<and>
     map type df' = map type df \<and>
     map category df' = map category df \<and>
     map (\<lambda>r. to_datetime_cell (date r)) df' = map (\<lambda>r. to_datetime_cell (date r)) df \<and>
     list_all (\<lambda>r. is_timestamp (date r)) df' \<and>
     (list_all (\<lambda>r. is_timestamp (date r)) df \<longrightarrow> df' = df)"
  proof (cases "df = []")
    case True
    with run have "df' = []" by (simp add: analyze_transactions_def)
    with True show ?thesis by simp
  next
    case False
    from run False obtain ds where ds: "to_datetime (map date df) = Inr ds"
      and df': "df' = map (\<lambda>r. set_date r (Timestamp (date r))) (map2 set_date df ds)"
      by (rule analyze_transactions_result)
    have len: "length ds = length df" using to_datetime_length [OF ds] by simp
    note f = assigned_table_fields [OF len, folded df']
    have dates: "map date df' = map Timestamp ds" using f by blast
    have "map (\<lambda>r. to_datetime_cell (date r)) df' = map to_datetime_cell (map date df')"
      by (simp add: comp_def)
    also have "\<dots> = map Inr ds" by (simp add: dates comp_def)
    also have "\<dots> = map to_datetime_cell (map date df)" using to_datetime_cells [OF ds] by simp
    finally have same: "map (\<lambda>r. to_datetime_cell (date r)) df' =
        map (\<lambda>r. to_datetime_cell (date r)) df"
      by (simp add: comp_def)
    have "list_all is_timestamp (map date df')" by (simp add: dates list_all_iff)
    then have ts: "list_all (\<lambda>r. is_timestamp (date r)) df'"
      by (simp add: list_all_iff)
    have unchanged: "df' = df" if "list_all (\<lambda>r. is_timestamp (date r)) df"
    proof -
      from that have "list_all is_timestamp (map date df)" by (simp add: list_all_iff)
      then have "map Timestamp ds = map date df" using ds by (rule to_datetime_timestamps)
      then have "map date df' = map date df" by (simp add: dates)
      then show ?thesis using f by (intro rows_eq_by_fields) blast+
    qed
    from f same ts unchanged show ?thesis by blast
  qed
qed

theorem analysis_run_table_effect_witness:
  "analyze_transactions sample_library test_transactions test_profile =
     Inr (test_transactions_converted,
          test_profile\<lparr>transaction_analysis := Some test_analysis\<rparr>) \<and>
   map description test_transactions_converted = map description test_transactions \<and>
   map amount test_transactions_converted = map amount test_transactions \<and>
   map category test_transactions_converted = map category test_transactions \<and>
   list_all (\<lambda>r. is_timestamp (date r)) test_transactions_converted \<and>
   analyze_transactions sample_library test_transactions_converted test_profile =
     Inr (test_transactions_converted,
          test_profile\<lparr>transaction_analysis := Some test_analysis\<rparr>)"
proof -
  note r1 = analyze_test_transactions
  note r2 = analyze_converted_test_transactions
  from analysis_run_table_effect [of sample_library test_transactions test_profile
      test_transactions_converted "test_profile\<lparr>transaction_analysis := Some test_analysis\<rparr>"] r1
  have a: "map description test_transactions_converted = map description test_transactions \<and>
     map amount test_transactions_converted = map amount test_transactions \<and>
     map category test_transactions_converted = map category test_transactions \<and>
     list_all (\<lambda>r. is_timestamp (date r)) test_transactions_converted"
    by blast
  from analysis_run_table_effect [of sample_library test_transactions_converted test_profile
      test_transactions_converted "test_profile\<lparr>transaction_analysis := Some test_analysis\<rparr>"] r2 a
  have "test_transactions_converted = test_transactions_converted" by blast
  with r1 r2 a show ?thesis by blast
qed

subsection \<open>The profile\<close>

text \<open>
  C10. With an empty table \<open>analyze_transactions\<close> returns the profile it was given, with
  whatever analysis was attached to it before, and the table as it is. With a table that is not
  empty, the returned profile differs from the given one in \<open>transaction_analysis\<close> only, which
  is set to an analysis that does not depend on the one attached before.
\<close>

theorem analyze_transactions_empty_table:
  "analyze_transactions lib [] p = Inr ([], p) \<and>
   (df \<noteq> [] \<and> analyze_transactions lib df p = Inr (df', p') \<longrightarrow>
      transaction_analysis p' \<noteq> None \<and>
      p' = p\<lparr>transaction_analysis := transaction_analysis p'\<rparr> \<and>
      analyze_transactions lib df (p\<lparr>transaction_analysis := old\<rparr>) = Inr (df', p'))"
proof (intro conjI impI)
  show "analyze_transactions lib [] p = Inr ([], p)"
    by (simp add: analyze_transactions_def)
next
  assume h: "df \<noteq> [] \<and> analyze_transactions lib df p = Inr (df', p')"
  then obtain ds where ds: "to_datetime (map date df) = Inr ds"
    and df': "df' = map (\<lambda>r. set_date r (Timestamp (date r))) (map2 set_date df ds)"
    and p': "p' = p\<lparr>transaction_analysis := Some (build_analysis lib (map2 set_date df ds) p)\<rparr>"
    by (blast elim: analyze_transactions_result)
  show "transaction_analysis p' \<noteq> None" by (simp add: p')
  show "p' = p\<lparr>transaction_analysis := transaction_analysis p'\<rparr>" by (simp add: p')
  from h have ne: "df \<noteq> []" by blast
  show "analyze_transactions lib df (p\<lparr>transaction_analysis := old\<rparr>) = Inr (df', p')"
    by (simp add: analyze_transactions_nonempty [OF ne ds]
        build_analysis_ignores_previous_analysis df' p')
qed

theorem analyze_transactions_empty_table_witness:
  "test_transactions \<noteq> [] \<and>
   analyze_transactions sample_library test_transactions test_profile =
     Inr (test_transactions_converted,
          test_profile\<lparr>transaction_analysis := Some test_analysis\<rparr>) \<and>
   analyze_transactions sample_library test_transactions
       (test_profile\<lparr>transaction_analysis := Some test_analysis\<rparr>) =
     Inr (test_transactions_converted,
          test_profile\<lparr>transaction_analysis := Some test_analysis\<rparr>) \<and>
   analyze_transactions sample_library []
       (test_profile\<lparr>transaction_analysis := Some test_analysis\<rparr>) =
     Inr ([], test_profile\<lparr>transaction_analysis := Some test_analysis\<rparr>)"
proof -
  have ne: "test_transactions \<noteq> []" by code_simp
  note r = analyze_test_transactions
  from analyze_transactions_empty_table [of sample_library
      "test_profile\<lparr>transaction_analysis := Some test_analysis\<rparr>"]
  have e: "analyze_transactions sample_library []
       (test_profile\<lparr>transaction_analysis := Some test_analysis\<rparr>) =
     Inr ([], test_profile\<lparr>transaction_analysis := Some test_analysis\<rparr>)"
    by blast
  from analyze_transactions_empty_table [of sample_library test_profile test_transactions
      test_transactions_converted "test_profile\<lparr>transaction_analysis := Some test_analysis\<rparr>"
      "Some test_analysis"] ne r
  have "analyze_transactions sample_library test_transactions
       (test_profile\<lparr>transaction_analysis := Some test_analysis\<rparr>) =
     Inr (test_transactions_converted,
          test_profile\<lparr>transaction_analysis := Some test_analysis\<rparr>)"
    by blast
  with ne r e show ?thesis by blast
qed

subsection \<open>The least-squares line\<close>

lemma sum_list_indices: "sum_list (map f [0..<n]) = (\<Sum>i<n. f i)"
  by (simp add: interv_sum_list_conv_sum_set_nat lessThan_atLeast0)

lemma sum_list_nth_real: "sum_list (ys::real list) = (\<Sum>i<length ys. ys ! i)"
  by (simp add: sum_list_sum_nth lessThan_atLeast0)

lemma sum_list_map2_indices:
  "sum_list (map2 (*) (map real [0..<length ys]) ys) = (\<Sum>i<length ys. real i * ys ! i)"
proof -
  have "map2 (*) (map real [0..<length ys]) ys = map (\<lambda>i. real i * ys ! i) [0..<length ys]"
    by (rule nth_equalityI) simp_all
  then show ?thesis by (simp only: sum_list_indices)
qed

lemma sum_index: "(\<Sum>i<n. real i) = real n * (real n - 1) / 2"
proof (induction n)
  case 0
  show ?case by simp
next
  case (Suc n)
  have "(\<Sum>i<Suc n. real i) = real n * (real n - 1) / 2 + real n"
    using Suc by simp
  also have "\<dots> = (real n + 1) * real n / 2" by (simp add: field_simps)
  finally show ?case by (simp add: mult.commute)
qed

lemma sum_index_sq: "(\<Sum>i<n. real i * real i) = (real n - 1) * real n * (2 * real n - 1) / 6"
proof (induction n)
  case 0
  show ?case by simp
next
  case (Suc n)
  have "(\<Sum>i<Suc n. real i * real i) =
      (real n - 1) * real n * (2 * real n - 1) / 6 + real n * real n"
    using Suc by simp
  also have "\<dots> = real n * (real n + 1) * (2 * (real n + 1) - 1) / 6"
    by (simp add: field_simps)
  finally show ?case by (simp add: mult.commute mult.left_commute)
qed


lemma fit_denominator_pos:
  assumes "2 \<le> n"
  shows "0 < real n * (\<Sum>i<n. real i * real i) - (\<Sum>i<n. real i) * (\<Sum>i<n. real i)"
proof -
  define N where "N = real n"
  have N: "2 \<le> N" using assms by (simp add: N_def)
  have "real n * (\<Sum>i<n. real i * real i) - (\<Sum>i<n. real i) * (\<Sum>i<n. real i) =
      N * ((N - 1) * N * (2 * N - 1) / 6) - (N * (N - 1) / 2) * (N * (N - 1) / 2)"
    by (simp only: sum_index sum_index_sq N_def)
  also have "\<dots> = N * N * ((N - 1) * (N + 1)) / 12"
    by (simp add: field_simps)
  finally have eq: "real n * (\<Sum>i<n. real i * real i) - (\<Sum>i<n. real i) * (\<Sum>i<n. real i) =
      N * N * ((N - 1) * (N + 1)) / 12" .
  have "0 < N * N" using N by simp
  moreover have "0 < (N - 1) * (N + 1)" using N by simp
  ultimately have "0 < N * N * ((N - 1) * (N + 1))" by (rule mult_pos_pos)
  then show ?thesis unfolding eq by simp
qed


text \<open>The normal equations of the fit, and that it minimises the squared error.\<close>

lemma least_squares_normal_equations:
  assumes "2 \<le> length ys"
  shows "(\<Sum>i<length ys.
            ys ! i - (least_squares_slope ys * real i + least_squares_intercept ys)) = 0"
    and "(\<Sum>i<length ys.
            real i * (ys ! i - (least_squares_slope ys * real i + least_squares_intercept ys))) = 0"
proof -
  define A where "A = least_squares_slope ys"
  define B where "B = least_squares_intercept ys"
  define n where "n = length ys"
  define N where "N = real n"
  define Sx where "Sx = (\<Sum>i<n. real i)"
  define Sy where "Sy = (\<Sum>i<n. ys ! i)"
  define Sxy where "Sxy = (\<Sum>i<n. real i * ys ! i)"
  define Sxx where "Sxx = (\<Sum>i<n. real i * real i)"
  define D where "D = N * Sxx - Sx * Sx"
  have Npos: "0 < N" using assms(1) by (auto simp: N_def n_def)
  have Dpos: "0 < D"
    using fit_denominator_pos [of n] assms(1) by (simp add: D_def N_def Sxx_def Sx_def n_def)
  have A: "A = (N * Sxy - Sx * Sy) / D"
    unfolding A_def least_squares_slope_def Let_def
    by (simp only: sum_list_indices sum_list_nth_real [of ys] sum_list_map2_indices
        list.map_comp comp_def)
       (simp add: D_def N_def Sx_def Sy_def Sxy_def Sxx_def n_def)
  have B: "B = (Sy - A * Sx) / N"
    unfolding B_def least_squares_intercept_def A_def [symmetric]
    by (simp only: sum_list_indices sum_list_nth_real [of ys])
       (simp add: N_def Sx_def Sy_def n_def)
  have AD: "A * D = N * Sxy - Sx * Sy" using Dpos by (simp add: A)
  have BN: "B * N = Sy - A * Sx" using Npos by (simp add: B)
  have "(\<Sum>i<n. ys ! i - (A * real i + B)) = Sy - A * Sx - N * B"
    by (simp add: sum_subtractf sum.distrib sum_distrib_left [symmetric] Sy_def Sx_def N_def)
  also have "\<dots> = 0" using BN by (simp add: mult.commute)
  finally show "(\<Sum>i<length ys.
      ys ! i - (least_squares_slope ys * real i + least_squares_intercept ys)) = 0"
    by (simp add: n_def A_def B_def)
  have "(\<Sum>i<n. real i * (ys ! i - (A * real i + B))) =
      (\<Sum>i<n. real i * ys ! i - (A * (real i * real i) + B * real i))"
    by (rule sum.cong) (simp_all add: algebra_simps)
  also have "\<dots> = Sxy - (A * Sxx + B * Sx)"
    by (simp add: sum_subtractf sum.distrib sum_distrib_left [symmetric] Sxy_def Sxx_def Sx_def)
  finally have e2: "(\<Sum>i<n. real i * (ys ! i - (A * real i + B))) = Sxy - (A * Sxx + B * Sx)" .
  have "N * (Sxy - (A * Sxx + B * Sx)) = N * Sxy - A * (N * Sxx) - (B * N) * Sx"
    by (simp add: algebra_simps)
  also have "\<dots> = N * Sxy - A * (N * Sxx) - (Sy - A * Sx) * Sx" by (simp only: BN)
  also have "\<dots> = (N * Sxy - Sx * Sy) - A * D" by (simp add: D_def algebra_simps)
  also have "\<dots> = 0" by (simp add: AD)
  finally have "N * (Sxy - (A * Sxx + B * Sx)) = 0" .
  then have "Sxy - (A * Sxx + B * Sx) = 0" using Npos by simp
  then show "(\<Sum>i<length ys.
      real i * (ys ! i - (least_squares_slope ys * real i + least_squares_intercept ys))) = 0"
    using e2 by (simp add: n_def A_def B_def)
qed


lemma squared_error_decomposition:
  assumes "2 \<le> length ys"
  shows "squared_error ys a b =
     squared_error ys (least_squares_slope ys) (least_squares_intercept ys) +
     (\<Sum>i<length ys.
        ((least_squares_slope ys - a) * real i + (least_squares_intercept ys - b))\<^sup>2)"
proof -
  define n where "n = length ys"
  define A where "A = least_squares_slope ys"
  define B where "B = least_squares_intercept ys"
  define r where "r i = ys ! i - (A * real i + B)" for i
  define d where "d i = (A - a) * real i + (B - b)" for i
  have n1: "(\<Sum>i<n. r i) = 0"
    using least_squares_normal_equations(1) [OF assms] by (simp add: r_def A_def B_def n_def)
  have n2: "(\<Sum>i<n. real i * r i) = 0"
    using least_squares_normal_equations(2) [OF assms] by (simp add: r_def A_def B_def n_def)
  have "(\<Sum>i<n. r i * d i) = (\<Sum>i<n. (A - a) * (real i * r i) + (B - b) * r i)"
    by (rule sum.cong) (simp_all add: d_def algebra_simps)
  also have "\<dots> = (A - a) * (\<Sum>i<n. real i * r i) + (B - b) * (\<Sum>i<n. r i)"
    by (simp add: sum.distrib sum_distrib_left)
  finally have cross: "(\<Sum>i<n. r i * d i) = 0" by (simp add: n1 n2)
  have "squared_error ys a b = (\<Sum>i<n. (r i)\<^sup>2 + 2 * (r i * d i) + (d i)\<^sup>2)"
    unfolding squared_error_def n_def [symmetric]
    by (rule sum.cong) (simp_all add: r_def d_def power2_eq_square algebra_simps)
  also have "\<dots> = (\<Sum>i<n. (r i)\<^sup>2) + 2 * (\<Sum>i<n. r i * d i) + (\<Sum>i<n. (d i)\<^sup>2)"
    by (simp add: sum.distrib sum_distrib_left)
  also have "\<dots> = (\<Sum>i<n. (r i)\<^sup>2) + (\<Sum>i<n. (d i)\<^sup>2)" by (simp add: cross)
  finally have "squared_error ys a b = (\<Sum>i<n. (r i)\<^sup>2) + (\<Sum>i<n. (d i)\<^sup>2)" .
  moreover have "squared_error ys A B = (\<Sum>i<n. (r i)\<^sup>2)"
    by (simp add: squared_error_def r_def n_def)
  ultimately show ?thesis by (simp add: A_def B_def d_def n_def)
qed

text \<open>
  The line of \<open>least_squares_slope\<close> and \<open>least_squares_intercept\<close> has the least squared
  error, and no line of another slope reaches it.
\<close>

lemma least_squares_slope_minimises:
  assumes "2 \<le> length ys"
  shows "squared_error ys (least_squares_slope ys) (least_squares_intercept ys)
    \<le> squared_error ys a b"
proof -
  have "0 \<le> (\<Sum>i<length ys.
      ((least_squares_slope ys - a) * real i + (least_squares_intercept ys - b))\<^sup>2)"
    by (rule sum_nonneg) simp
  then show ?thesis using squared_error_decomposition [OF assms, of a b] by simp
qed

lemma least_squares_slope_unique:
  assumes "2 \<le> length ys"
    and "squared_error ys a b
      \<le> squared_error ys (least_squares_slope ys) (least_squares_intercept ys)"
  shows "a = least_squares_slope ys"
proof -
  define d where
    "d i = (least_squares_slope ys - a) * real i + (least_squares_intercept ys - b)" for i
  have "(\<Sum>i<length ys. (d i)\<^sup>2) \<le> 0"
    using squared_error_decomposition [OF assms(1), of a b] assms(2) by (simp add: d_def)
  moreover have "0 \<le> (\<Sum>i<length ys. (d i)\<^sup>2)" by (rule sum_nonneg) simp
  ultimately have z: "(\<Sum>i<length ys. (d i)\<^sup>2) = 0" by simp
  have all: "(d i)\<^sup>2 = 0" if "i < length ys" for i
  proof -
    have "\<forall>i\<in>{..<length ys}. (d i)\<^sup>2 = 0"
      using z by (subst (asm) sum_nonneg_eq_0_iff) simp_all
    with that show ?thesis by simp
  qed
  have "0 < length ys" and "1 < length ys" using assms(1) by auto
  then have "(d 0)\<^sup>2 = 0" and "(d 1)\<^sup>2 = 0" by (simp_all only: all)
  then have "d 0 = 0" and "d 1 = 0" by simp_all
  then show ?thesis by (simp add: d_def)
qed

subsection \<open>The spending trend\<close>

lemma spending_trend_one_month:
  "length (populated_months (non_income_rows df)) = 1 \<Longrightarrow>
   spending_trend (analyze_spending_patterns lib df) = ''insufficient_data''"
proof -
  assume one: "length (populated_months (non_income_rows df)) = 1"
  then have ne: "non_income_rows df \<noteq> []" by (auto simp: populated_months_def)
  from one ne show ?thesis
    by (simp add: analyze_spending_patterns_def non_income_rows_def [symmetric] Let_def
        groupby_month_spec)
qed






subsection \<open>The category breakdown\<close>













end
